theory Spec2Isabelle
  imports Main
begin

section \<open>Values\<close>

text \<open>
  The lesson service (\<^verbatim>\<open>generateLesson\<close>, \<^verbatim>\<open>evaluateWriting\<close> and their helpers
  \<^verbatim>\<open>validateResponse\<close> and \<^verbatim>\<open>mapRawToLesson\<close>) works on what \<^verbatim>\<open>JSON.parse\<close> returns,
  typed \<^verbatim>\<open>any\<close>. The embedding keeps that: a payload is a JSON value, a property read is
  a function that raises \<^verbatim>\<open>TypeError\<close> on \<^verbatim>\<open>null\<close>, and \<^verbatim>\<open>undefined\<close> is \<open>None\<close>.

  Strings are lists of \<open>char\<close>, one \<open>char\<close> for one UTF-16 code unit in the range
  U+0000 to U+00FF (Latin-1, which holds the German alphabet), so \<open>length\<close> is the
  \<^verbatim>\<open>.length\<close> of the source. A number is carried as an integer (the one numeric field
  of the response schema, \<^verbatim>\<open>ans\<close>, is an INTEGER); of a number the code below only asks
  whether it is zero.
\<close>

datatype LanguageLevel = A0 | A1 | A2 | B1

datatype json =
    JNull
  | JBool bool
  | JNum int
  | JStr string
  | JArr "json list"
  | JObj "(string \<times> json) list"

type_synonym jsval = "json option"

datatype error = TypeError

text \<open>
  \<^verbatim>\<open>v.k\<close> for the property names the source reads (\<^verbatim>\<open>t l voc txt txt_tr q wr pts lis\<close>,
  \<^verbatim>\<open>de en hi ex\<close>, \<^verbatim>\<open>qu ops ans exp\<close> and \<^verbatim>\<open>length\<close>). An object is the association list
  of its own properties; none of these names is inherited from a prototype, except
  \<^verbatim>\<open>length\<close> of arrays and strings.
\<close>

fun getProp :: "json \<Rightarrow> string \<Rightarrow> error + jsval" where
  "getProp JNull k = Inl TypeError"
| "getProp (JObj kvs) k = Inr (map_of kvs k)"
| "getProp (JArr xs) k = Inr (if k = ''length'' then Some (JNum (int (length xs))) else None)"
| "getProp (JStr s) k = Inr (if k = ''length'' then Some (JNum (int (length s))) else None)"
| "getProp (JBool b) k = Inr None"
| "getProp (JNum n) k = Inr None"

text \<open>\<^verbatim>\<open>undefined.k\<close> raises as \<^verbatim>\<open>null.k\<close> does.\<close>

fun getPropOf :: "jsval \<Rightarrow> string \<Rightarrow> error + jsval" where
  "getPropOf None k = Inl TypeError"
| "getPropOf (Some v) k = getProp v k"

text \<open>The truthiness that \<^verbatim>\<open>if (x)\<close>, \<^verbatim>\<open>!x\<close> and \<^verbatim>\<open>x || y\<close> test.\<close>

fun truthy :: "jsval \<Rightarrow> bool" where
  "truthy None = False"
| "truthy (Some JNull) = False"
| "truthy (Some (JBool b)) = b"
| "truthy (Some (JNum n)) = (n \<noteq> 0)"
| "truthy (Some (JStr s)) = (s \<noteq> [])"
| "truthy (Some (JArr xs)) = True"
| "truthy (Some (JObj kvs)) = True"

text \<open>\<^verbatim>\<open>x || d\<close> where \<^verbatim>\<open>d\<close> is a JSON value.\<close>

fun orElse :: "jsval \<Rightarrow> json \<Rightarrow> json" where
  "orElse None d = d"
| "orElse (Some v) d = (if truthy (Some v) then v else d)"

section \<open>Strings\<close>

text \<open>
  The characters that \<^verbatim>\<open>\s\<close> matches and \<^verbatim>\<open>trim\<close> removes, below U+0100: tab, line
  feed, vertical tab, form feed, carriage return, space and no-break space.
\<close>

definition isSpace :: "char \<Rightarrow> bool" where
  "isSpace c = (of_char c \<in> {9, 10, 11, 12, 13, 32, 160 :: nat})"

text \<open>
  \<^verbatim>\<open>toLowerCase\<close> below U+0100: the letters A to Z and the letters U+00C0 to U+00DE
  except the multiplication sign U+00D7 move up by 32.
\<close>

definition lowerChar :: "char \<Rightarrow> char" where
  "lowerChar c =
     (let n = (of_char c :: nat)
      in if (65 \<le> n \<and> n \<le> 90) \<or> (192 \<le> n \<and> n \<le> 222 \<and> n \<noteq> 215)
         then char_of (n + 32) else c)"

definition toLowerCase :: "string \<Rightarrow> string" where
  "toLowerCase s = map lowerChar s"

text \<open>
  \<^verbatim>\<open>s.split(/\s+/)\<close>: the pieces between the maximal runs of white space. A run at the
  start or at the end leaves an empty piece there, and the empty string splits into one
  empty piece.
\<close>

function splitWs :: "string \<Rightarrow> string list" where
  "splitWs [] = [[]]"
| "splitWs (c # cs) =
     (if isSpace c then [] # splitWs (dropWhile isSpace cs)
      else (case splitWs cs of
              [] \<Rightarrow> [[c]]
            | w # ws \<Rightarrow> (c # w) # ws))"
  by pat_completeness auto
termination
  by (relation "measure length") (auto simp: le_imp_less_Suc length_dropWhile_le)

definition trim :: "string \<Rightarrow> string" where
  "trim s = rev (dropWhile isSpace (rev (dropWhile isSpace s)))"

definition startsWith :: "string \<Rightarrow> string \<Rightarrow> bool" where
  "startsWith s p = (take (length p) s = p)"

definition endsWith :: "string \<Rightarrow> string \<Rightarrow> bool" where
  "endsWith s p = (drop (length s - length p) s = p \<and> length p \<le> length s)"

section \<open>Exceptions\<close>

text \<open>A computation that may raise is a sum; \<open>bindE\<close> runs the next statement unless the
  first one raised, and \<open>mapE\<close> is what \<^verbatim>\<open>Array.prototype.map\<close> does with a callback that
  may raise: the first exception ends it.\<close>

definition bindE :: "error + 'a \<Rightarrow> ('a \<Rightarrow> error + 'b) \<Rightarrow> error + 'b" where
  "bindE m f = (case m of Inl e \<Rightarrow> Inl e | Inr x \<Rightarrow> f x)"

fun mapE :: "('a \<Rightarrow> error + 'b) \<Rightarrow> 'a list \<Rightarrow> error + 'b list" where
  "mapE f [] = Inr []"
| "mapE f (x # xs) = bindE (f x) (\<lambda>y. bindE (mapE f xs) (\<lambda>ys. Inr (y # ys)))"

text \<open>\<^verbatim>\<open>x.map(f)\<close> on a JSON value: only an array has a callable \<^verbatim>\<open>map\<close>.\<close>

fun arrayMap :: "(json \<Rightarrow> error + 'b) \<Rightarrow> json \<Rightarrow> error + 'b list" where
  "arrayMap f (JArr xs) = mapE f xs"
| "arrayMap f JNull = Inl TypeError"
| "arrayMap f (JBool b) = Inl TypeError"
| "arrayMap f (JNum n) = Inl TypeError"
| "arrayMap f (JStr s) = Inl TypeError"
| "arrayMap f (JObj kvs) = Inl TypeError"

section \<open>The domain mapper\<close>

record VocabularyCard =
  german :: jsval
  englishExplanation :: jsval
  hindiTranslation :: jsval
  exampleSentence :: jsval

record QuizQuestion =
  question :: jsval
  options :: jsval
  correctAnswer :: jsval
  explanation :: jsval

text \<open>The optional fields of \<^verbatim>\<open>LessonContent\<close> are options: \<open>None\<close> is \<^verbatim>\<open>undefined\<close>
  (or no property at all).\<close>

record LessonContent =
  topic :: json
  level :: json
  vocabulary :: "VocabularyCard list"
  readingText :: jsval
  readingTextTranslation :: jsval
  readingQuestions :: "QuizQuestion list option"
  writingPrompt :: jsval
  writingPoints :: jsval
  listeningScenario :: jsval
  listeningQuestions :: "QuizQuestion list option"

definition mapVoc :: "json \<Rightarrow> error + VocabularyCard" where
  "mapVoc v =
     bindE (getProp v ''de'') (\<lambda>de.
     bindE (getProp v ''en'') (\<lambda>en.
     bindE (getProp v ''hi'') (\<lambda>hi.
     bindE (getProp v ''ex'') (\<lambda>ex.
     Inr \<lparr> german = de, englishExplanation = en,
           hindiTranslation = hi, exampleSentence = ex \<rparr>))))"

definition mapQuestion :: "json \<Rightarrow> error + QuizQuestion" where
  "mapQuestion q =
     bindE (getProp q ''qu'') (\<lambda>qu.
     bindE (getProp q ''ops'') (\<lambda>ops.
     bindE (getProp q ''ans'') (\<lambda>ans.
     bindE (getProp q ''exp'') (\<lambda>exp.
     Inr \<lparr> question = qu, options = ops,
           correctAnswer = ans, explanation = exp \<rparr>))))"

definition mapRawToLesson :: "json \<Rightarrow> error + LessonContent" where
  "mapRawToLesson raw =
     bindE (getProp raw ''t'') (\<lambda>t.
     bindE (getProp raw ''l'') (\<lambda>l.
     bindE (getProp raw ''voc'') (\<lambda>voc.
     bindE (arrayMap mapVoc (orElse voc (JArr []))) (\<lambda>cards.
     bindE (getProp raw ''txt'') (\<lambda>txt.
     bindE (getProp raw ''txt_tr'') (\<lambda>txt_tr.
     bindE (getProp raw ''q'') (\<lambda>q.
     bindE (arrayMap mapQuestion (orElse q (JArr []))) (\<lambda>questions.
     bindE (getProp raw ''wr'') (\<lambda>wr.
     bindE (getProp raw ''pts'') (\<lambda>pts.
     bindE (getProp raw ''lis'') (\<lambda>lis.
     Inr \<lparr> topic = orElse t (JStr ''Lesson''),
           level = orElse l (JStr ''A1''),
           vocabulary = cards,
           readingText = txt,
           readingTextTranslation = txt_tr,
           readingQuestions = Some questions,
           writingPrompt = wr,
           writingPoints = pts,
           listeningScenario = lis,
           listeningQuestions = None \<rparr>)))))))))))"

section \<open>The validator\<close>

definition maxWords :: "LanguageLevel \<Rightarrow> nat" where
  "maxWords lv = (if lv = A0 then 60 else 150)"

text \<open>
  \<^verbatim>\<open>wordFreq\<close> is an object literal used as a dictionary, so \<^verbatim>\<open>wordFreq[word]\<close> also
  finds what \<^verbatim>\<open>Object.prototype\<close> defines. For such a name \<^verbatim>\<open>(wordFreq[word] || 0) + 1\<close>
  is the text of a function (or of an object) followed by \<^verbatim>\<open>1\<close>, a string that reads as
  no number, and \<^verbatim>\<open>wordFreq[word] > 8\<close> is false at every occurrence.
\<close>

definition inheritedName :: "string \<Rightarrow> bool" where
  "inheritedName w = (w \<in> set [''constructor'', ''__proto__'', ''hasOwnProperty'',
     ''isPrototypeOf'', ''propertyIsEnumerable'', ''toString'', ''toLocaleString'',
     ''valueOf'', ''__defineGetter__'', ''__defineSetter__'', ''__lookupGetter__'',
     ''__lookupSetter__''])"

text \<open>The \<^verbatim>\<open>for\<close> loop over the words: \<open>False\<close> when it returns false, \<open>True\<close> when it
  runs to its end. \<open>wordFreq\<close> holds the own numeric properties.\<close>

fun repetitionLoop :: "(string \<rightharpoonup> nat) \<Rightarrow> string list \<Rightarrow> bool" where
  "repetitionLoop wordFreq [] = True"
| "repetitionLoop wordFreq (word # rest) =
     (if length word > 3 then
        (if inheritedName word then repetitionLoop wordFreq rest
         else (let n = (case wordFreq word of None \<Rightarrow> 0 | Some k \<Rightarrow> k) + 1
               in if n > 8 then False
                  else repetitionLoop (wordFreq(word \<mapsto> n)) rest))
      else repetitionLoop wordFreq rest)"

text \<open>The body of \<^verbatim>\<open>if (raw.txt)\<close> for a string: \<open>False\<close> when it returns false.\<close>

definition checkText :: "string \<Rightarrow> LanguageLevel \<Rightarrow> bool" where
  "checkText txt lv =
     (let wordCount = length (splitWs txt)
      in if wordCount > maxWords lv then False
         else repetitionLoop Map.empty (splitWs (toLowerCase txt)))"

text \<open>A truthy \<^verbatim>\<open>raw.txt\<close> that is no string has no \<^verbatim>\<open>split\<close> to call.\<close>

fun checkTxt :: "jsval \<Rightarrow> LanguageLevel \<Rightarrow> error + bool" where
  "checkTxt (Some (JStr txt)) lv = Inr (checkText txt lv)"
| "checkTxt v lv = Inl TypeError"

definition validateResponse :: "json \<Rightarrow> LanguageLevel \<Rightarrow> error + bool" where
  "validateResponse raw lv =
     bindE (getProp raw ''txt'') (\<lambda>txt.
     bindE (if truthy txt then checkTxt txt lv else Inr True) (\<lambda>ok.
     if \<not> ok then Inr False
     else bindE (getProp raw ''voc'') (\<lambda>voc.
          if \<not> truthy voc then Inr False
          else bindE (getPropOf voc ''length'') (\<lambda>len.
               if len = Some (JNum 0) then Inr False else Inr True))))"

section \<open>The response parser\<close>

text \<open>\<^verbatim>\<open>s.replace(/^p\s*/, '')\<close> for a literal \<open>p\<close>, and \<^verbatim>\<open>s.replace(/\s*```$/, '')\<close>: the
  leftmost match of the second starts where the run of white space before the closing
  fence starts.\<close>

definition stripOpen :: "string \<Rightarrow> string \<Rightarrow> string" where
  "stripOpen p s = (if startsWith s p then dropWhile isSpace (drop (length p) s) else s)"

definition stripClose :: "string \<Rightarrow> string" where
  "stripClose s =
     (if endsWith s ''```'' then rev (dropWhile isSpace (drop 3 (rev s))) else s)"

definition cleanText :: "string \<Rightarrow> string" where
  "cleanText text =
     (let c = trim text
      in if startsWith c ''```json'' then stripClose (stripOpen ''```json'' c)
         else if startsWith c ''```'' then stripClose (stripOpen ''```'' c)
         else c)"

text \<open>\<^verbatim>\<open>JSON.parse\<close> is the platform's: the functions below take it as the parameter
  \<open>parse\<close>, \<open>None\<close> when it raises \<^verbatim>\<open>SyntaxError\<close>.\<close>

definition parseResponse :: "(string \<Rightarrow> json option) \<Rightarrow> string \<Rightarrow> json option" where
  "parseResponse parse text = parse (cleanText text)"

section \<open>The generation client\<close>

text \<open>What one call of \<^verbatim>\<open>ai.models.generateContent\<close> does: it raises, or it returns a
  response whose \<^verbatim>\<open>text\<close> is a string or \<^verbatim>\<open>undefined\<close>.\<close>

datatype outcome = Throws | Response "string option"

text \<open>How the \<^verbatim>\<open>try\<close> block of one attempt ends: with a \<^verbatim>\<open>return\<close>, in the
  \<^verbatim>\<open>catch\<close> clause, or at the next iteration (by \<^verbatim>\<open>continue\<close>, or past the
  \<^verbatim>\<open>if (response.text)\<close> whose test failed).\<close>

datatype tried = Return LessonContent | Caught | Next

definition returnMapped :: "json \<Rightarrow> tried" where
  "returnMapped rawData =
     (case mapRawToLesson rawData of Inl e \<Rightarrow> Caught | Inr lesson \<Rightarrow> Return lesson)"

definition tryAttempt ::
  "(string \<Rightarrow> json option) \<Rightarrow> LanguageLevel \<Rightarrow> nat \<Rightarrow> outcome \<Rightarrow> tried" where
  "tryAttempt parse lv attempt out =
     (case out of
        Throws \<Rightarrow> Caught
      | Response None \<Rightarrow> Next
      | Response (Some text) \<Rightarrow>
          if text = [] then Next
          else (case parseResponse parse text of
                  None \<Rightarrow> Caught
                | Some rawData \<Rightarrow>
                    (case validateResponse rawData lv of
                       Inl e \<Rightarrow> Caught
                     | Inr ok \<Rightarrow>
                         if ok then returnMapped rawData
                         else if attempt = 2 then returnMapped rawData
                         else Next)))"

text \<open>
  One model call, \<^verbatim>\<open>await ai.models.generateContent(...)\<close>. \<open>ai k\<close> is the outcome of
  the call that attempt \<open>k\<close> makes (the prompt is the same at every attempt). The state
  is the number of calls made so far, and every call raises it by one.
\<close>

definition callModel :: "(nat \<Rightarrow> outcome) \<Rightarrow> nat \<Rightarrow> nat \<Rightarrow> outcome \<times> nat" where
  "callModel ai attempt calls = (ai attempt, Suc calls)"

text \<open>
  The retry loop from \<open>attempt\<close> on, \<open>calls\<close> model calls having been made before. Each
  iteration makes its call first. The waiting between attempts is left out. The result
  is what \<^verbatim>\<open>generateLesson\<close> returns, \<open>None\<close> for \<^verbatim>\<open>null\<close>, with the number of model
  calls made when it returns.
\<close>

function retryLoop ::
  "(string \<Rightarrow> json option) \<Rightarrow> (nat \<Rightarrow> outcome) \<Rightarrow> LanguageLevel \<Rightarrow> nat \<Rightarrow> nat
     \<Rightarrow> LessonContent option \<times> nat" where
  "retryLoop parse ai lv attempt calls =
     (if attempt < 3 then
        (case callModel ai attempt calls of
           (out, made) \<Rightarrow>
             (case tryAttempt parse lv attempt out of
                Return lesson \<Rightarrow> (Some lesson, made)
              | Caught \<Rightarrow>
                  if attempt = 2 then (None, made)
                  else retryLoop parse ai lv (attempt + 1) made
              | Next \<Rightarrow> retryLoop parse ai lv (attempt + 1) made))
      else (None, calls))"
  by pat_completeness auto
termination
  by (relation "measure (\<lambda>(parse, ai, lv, attempt, calls). 3 - attempt)") auto

text \<open>\<^verbatim>\<open>generateLesson\<close> enters the loop at attempt 0, no call made yet.\<close>

definition generateLesson ::
  "(string \<Rightarrow> json option) \<Rightarrow> (nat \<Rightarrow> outcome) \<Rightarrow> LanguageLevel
     \<Rightarrow> LessonContent option \<times> nat" where
  "generateLesson parse ai lv = retryLoop parse ai lv 0 0"

section \<open>Writing feedback\<close>

text \<open>\<^verbatim>\<open>evaluateWriting\<close> makes one model call; \<open>out\<close> is its outcome.\<close>

definition evaluateWriting :: "outcome \<Rightarrow> string" where
  "evaluateWriting out =
     (case out of
        Throws \<Rightarrow> ''Error generating feedback. Please try again.''
      | Response None \<Rightarrow> ''Could not generate feedback.''
      | Response (Some text) \<Rightarrow>
          if text = [] then ''Could not generate feedback.'' else text)"

section \<open>Payloads\<close>

text \<open>
  The shape that the \<^verbatim>\<open>responseSchema\<close> of the model call gives a payload: an object
  whose properties, where present, have the types of the schema. Which properties are
  required is left out: the validator and the mapper are written for absent ones.
\<close>

definition isStr :: "json \<Rightarrow> bool" where
  "isStr v = (case v of JStr s \<Rightarrow> True | _ \<Rightarrow> False)"

definition isInt :: "json \<Rightarrow> bool" where
  "isInt v = (case v of JNum n \<Rightarrow> True | _ \<Rightarrow> False)"

fun isArrayOf :: "(json \<Rightarrow> bool) \<Rightarrow> json \<Rightarrow> bool" where
  "isArrayOf P (JArr xs) = list_all P xs"
| "isArrayOf P JNull = False"
| "isArrayOf P (JBool b) = False"
| "isArrayOf P (JNum n) = False"
| "isArrayOf P (JStr s) = False"
| "isArrayOf P (JObj kvs) = False"

definition optional :: "(string \<times> json) list \<Rightarrow> string \<Rightarrow> (json \<Rightarrow> bool) \<Rightarrow> bool" where
  "optional kvs k P = (case map_of kvs k of None \<Rightarrow> True | Some v \<Rightarrow> P v)"

fun vocShape :: "json \<Rightarrow> bool" where
  "vocShape (JObj kvs) =
     (optional kvs ''de'' isStr \<and> optional kvs ''en'' isStr \<and>
      optional kvs ''hi'' isStr \<and> optional kvs ''ex'' isStr)"
| "vocShape JNull = False"
| "vocShape (JBool b) = False"
| "vocShape (JNum n) = False"
| "vocShape (JStr s) = False"
| "vocShape (JArr xs) = False"

fun questionShape :: "json \<Rightarrow> bool" where
  "questionShape (JObj kvs) =
     (optional kvs ''qu'' isStr \<and> optional kvs ''ops'' (isArrayOf isStr) \<and>
      optional kvs ''ans'' isInt \<and> optional kvs ''exp'' isStr)"
| "questionShape JNull = False"
| "questionShape (JBool b) = False"
| "questionShape (JNum n) = False"
| "questionShape (JStr s) = False"
| "questionShape (JArr xs) = False"

fun payloadShape :: "json \<Rightarrow> bool" where
  "payloadShape (JObj kvs) =
     (optional kvs ''t'' isStr \<and> optional kvs ''l'' isStr \<and>
      optional kvs ''voc'' (isArrayOf vocShape) \<and>
      optional kvs ''txt'' isStr \<and> optional kvs ''txt_tr'' isStr \<and>
      optional kvs ''q'' (isArrayOf questionShape) \<and>
      optional kvs ''wr'' isStr \<and> optional kvs ''pts'' (isArrayOf isStr) \<and>
      optional kvs ''lis'' isStr)"
| "payloadShape JNull = False"
| "payloadShape (JBool b) = False"
| "payloadShape (JNum n) = False"
| "payloadShape (JStr s) = False"
| "payloadShape (JArr xs) = False"

section \<open>Sample data\<close>

definition halloCard :: json where
  "halloCard = JObj [(''de'', JStr ''Hallo''), (''en'', JStr ''Hello''),
                     (''hi'', JStr ''Namaste''), (''ex'', JStr ''Hallo!'')]"

definition minimalPayload :: json where
  "minimalPayload =
     JObj [(''t'', JStr ''Greetings''), (''l'', JStr ''A1''), (''voc'', JArr [halloCard])]"

definition minimalLesson :: LessonContent where
  "minimalLesson =
     \<lparr> topic = JStr ''Greetings'', level = JStr ''A1'',
       vocabulary = [\<lparr> german = Some (JStr ''Hallo''),
                       englishExplanation = Some (JStr ''Hello''),
                       hindiTranslation = Some (JStr ''Namaste''),
                       exampleSentence = Some (JStr ''Hallo!'') \<rparr>],
       readingText = None, readingTextTranslation = None,
       readingQuestions = Some [],
       writingPrompt = None, writingPoints = None,
       listeningScenario = None, listeningQuestions = None \<rparr>"

definition minimalText :: string where
  \<open>minimalText = ''{"t":"Greetings","l":"A1","voc":[{"de":"Hallo","en":"Hello","hi":"Namaste","ex":"Hallo!"}]}''\<close>

text \<open>An excerpt of \<^verbatim>\<open>JSON.parse\<close>, to run the client on concrete texts: the value of
  three documents. No other text is fed to it below.\<close>

definition sampleParse :: "string \<Rightarrow> json option" where
  \<open>sampleParse s =
     (if s = ''{}'' then Some (JObj [])
      else if s = ''{"t":"x"}'' then Some (JObj [(''t'', JStr ''x'')])
      else if s = minimalText then Some minimalPayload
      else None)\<close>

text \<open>The reading text of \<open>n\<close> words \<open>w\<close>, one space between two of them.\<close>

fun repeatWord :: "nat \<Rightarrow> string \<Rightarrow> string" where
  "repeatWord 0 w = []"
| "repeatWord (Suc 0) w = w"
| "repeatWord (Suc (Suc n)) w = w @ '' '' @ repeatWord (Suc n) w"

definition readingPayload :: "string \<Rightarrow> json" where
  "readingPayload txt = JObj [(''txt'', JStr txt), (''voc'', JArr [halloCard])]"

text \<open>Scripts of model calls: the outcome of the call of attempt \<open>k\<close>.\<close>

definition alwaysThrows :: "nat \<Rightarrow> outcome" where
  "alwaysThrows k = Throws"

definition parsedThenErrors :: "nat \<Rightarrow> outcome" where
  "parsedThenErrors k = (if k = 0 then Response (Some ''{}'') else Throws)"

definition errorsThenSuccess :: "nat \<Rightarrow> outcome" where
  "errorsThenSuccess k = (if k = 2 then Response (Some minimalText) else Throws)"

definition errorThenSuccess :: "nat \<Rightarrow> outcome" where
  "errorThenSuccess k = (if k = 0 then Throws else Response (Some minimalText))"

definition successAtOnce :: "nat \<Rightarrow> outcome" where
  "successAtOnce k = Response (Some minimalText)"

definition threeRejections :: "nat \<Rightarrow> outcome" where
  \<open>threeRejections k =
     (if k = 2 then Response (Some ''{"t":"x"}'') else Response (Some ''{}''))\<close>

definition emptyObjects :: "nat \<Rightarrow> outcome" where
  "emptyObjects k = Response (Some ''{}'')"

text \<open>A JSON document begins, after white space, with the first character of a value:
  of an object, an array, a string, a number or a literal.\<close>

definition jsonStart :: "char \<Rightarrow> bool" where
  \<open>jsonStart c = (c \<in> set ''{["-0123456789tfn'')\<close>

definition startsJson :: "string \<Rightarrow> bool" where
  "startsJson doc = (case dropWhile isSpace doc of [] \<Rightarrow> False | c # cs \<Rightarrow> jsonStart c)"

section \<open>Payloads are mapped and validated without an exception\<close>

text \<open>On a payload of the schema's shape neither the mapper nor the validator raises.\<close>

lemma optional_array:
  "optional kvs k (isArrayOf P) \<Longrightarrow>
     map_of kvs k = None \<or> (\<exists>xs. map_of kvs k = Some (JArr xs) \<and> list_all P xs)"
  by (cases "map_of kvs k"; simp add: optional_def)
     (metis isArrayOf.elims(2))

lemma optional_isStr:
  "optional kvs k isStr \<Longrightarrow> map_of kvs k = None \<or> (\<exists>s. map_of kvs k = Some (JStr s))"
  by (auto simp: optional_def isStr_def split: option.splits json.splits)

lemma mapE_total:
  "list_all (\<lambda>x. \<exists>y. f x = Inr y) xs \<Longrightarrow> \<exists>ys. mapE f xs = Inr ys"
  by (induction xs) (auto simp: bindE_def)

lemma mapVoc_total: "vocShape v \<Longrightarrow> \<exists>c. mapVoc v = Inr c"
  by (cases v) (simp_all add: mapVoc_def bindE_def)

lemma mapQuestion_total: "questionShape v \<Longrightarrow> \<exists>c. mapQuestion v = Inr c"
  by (cases v) (simp_all add: mapQuestion_def bindE_def)

lemma arrayMap_total:
  assumes "v = None \<or> (\<exists>xs. v = Some (JArr xs) \<and> list_all P xs)"
    and "\<And>x. P x \<Longrightarrow> \<exists>y. f x = Inr y"
  shows "\<exists>ys. arrayMap f (orElse v (JArr [])) = Inr ys"
proof -
  from assms(1) show ?thesis
  proof
    assume "v = None"
    then show ?thesis by simp
  next
    assume "\<exists>xs. v = Some (JArr xs) \<and> list_all P xs"
    then obtain xs where v: "v = Some (JArr xs)" and all: "list_all P xs" by blast
    from all assms(2) have "list_all (\<lambda>x. \<exists>y. f x = Inr y) xs"
      by (simp add: list_all_iff)
    then show ?thesis using v by (simp add: mapE_total)
  qed
qed

lemma payloadShape_mappable:
  assumes "payloadShape raw"
  shows "\<exists>lesson. mapRawToLesson raw = Inr lesson"
proof -
  from assms obtain kvs where raw: "raw = JObj kvs" by (cases raw) simp_all
  with assms have voc: "optional kvs ''voc'' (isArrayOf vocShape)"
    and q: "optional kvs ''q'' (isArrayOf questionShape)" by simp_all
  obtain cards where
    cards: "arrayMap mapVoc (orElse (map_of kvs ''voc'') (JArr [])) = Inr cards"
    using arrayMap_total [where P = vocShape and f = mapVoc,
            OF optional_array [OF voc] mapVoc_total]
    by blast
  obtain questions where
    questions: "arrayMap mapQuestion (orElse (map_of kvs ''q'') (JArr [])) = Inr questions"
    using arrayMap_total [where P = questionShape and f = mapQuestion,
            OF optional_array [OF q] mapQuestion_total]
    by blast
  show ?thesis
    by (simp add: raw mapRawToLesson_def bindE_def cards questions)
qed

lemma payloadShape_validated:
  assumes "payloadShape raw"
  shows "\<exists>ok. validateResponse raw lv = Inr ok"
proof -
  from assms obtain kvs where raw: "raw = JObj kvs" by (cases raw) simp_all
  with assms have voc: "optional kvs ''voc'' (isArrayOf vocShape)"
    and tx: "optional kvs ''txt'' isStr" by simp_all
  from optional_isStr [OF tx]
  have t: "\<exists>ok. (if truthy (map_of kvs ''txt'') then checkTxt (map_of kvs ''txt'') lv
                 else Inr True) = Inr ok"
    by auto
  from optional_array [OF voc]
  have v: "\<not> truthy (map_of kvs ''voc'') \<or>
           (\<exists>len. getPropOf (map_of kvs ''voc'') ''length'' = Inr len)"
    by auto
  from t v show ?thesis
    by (auto simp: raw validateResponse_def bindE_def)
qed

section \<open>The retry loop, attempt by attempt\<close>

text \<open>The loop makes three iterations at most, so \<^verbatim>\<open>generateLesson\<close> is a case
  distinction on how the three \<^verbatim>\<open>try\<close> blocks end.\<close>

lemma retryLoop_unroll:
  "generateLesson parse ai lv =
     (case tryAttempt parse lv 0 (ai 0) of
        Return lesson \<Rightarrow> (Some lesson, 1)
      | _ \<Rightarrow> (case tryAttempt parse lv 1 (ai 1) of
                Return lesson \<Rightarrow> (Some lesson, 2)
              | _ \<Rightarrow> (case tryAttempt parse lv 2 (ai 2) of
                        Return lesson \<Rightarrow> (Some lesson, 3)
                      | _ \<Rightarrow> (None, 3))))"
proof -
  note nums = numeral_2_eq_2 numeral_3_eq_3
  have three: "retryLoop parse ai lv (Suc (Suc (Suc 0))) c = (None, c)" for c
    by (simp add: retryLoop.simps [of parse ai lv "Suc (Suc (Suc 0))"] nums)
  have two: "retryLoop parse ai lv (Suc (Suc 0)) c =
      (case tryAttempt parse lv (Suc (Suc 0)) (ai (Suc (Suc 0))) of
         Return lesson \<Rightarrow> (Some lesson, Suc c)
       | _ \<Rightarrow> (None, Suc c))" for c
    by (simp add: retryLoop.simps [of parse ai lv "Suc (Suc 0)"] callModel_def three nums
          split: tried.splits)
  have one: "retryLoop parse ai lv (Suc 0) c =
      (case tryAttempt parse lv (Suc 0) (ai (Suc 0)) of
         Return lesson \<Rightarrow> (Some lesson, Suc c)
       | _ \<Rightarrow> retryLoop parse ai lv (Suc (Suc 0)) (Suc c))" for c
    by (simp add: retryLoop.simps [of parse ai lv "Suc 0"] callModel_def nums
          split: tried.splits)
  have zero: "retryLoop parse ai lv 0 c =
      (case tryAttempt parse lv 0 (ai 0) of
         Return lesson \<Rightarrow> (Some lesson, Suc c)
       | _ \<Rightarrow> retryLoop parse ai lv (Suc 0) (Suc c))" for c
    by (simp add: retryLoop.simps [of parse ai lv 0] callModel_def nums split: tried.splits)
  show ?thesis
    by (simp add: generateLesson_def zero one two nums del: retryLoop.simps
          split: tried.splits)
qed

text \<open>The number of calls made is between one and three.\<close>

lemma generateLesson_called: "1 \<le> snd (generateLesson parse ai lv)"
  by (simp add: retryLoop_unroll split: tried.splits)

lemma tryAttempt_Throws: "tryAttempt parse lv k Throws = Caught"
  by (simp add: tryAttempt_def)

lemma tryAttempt_accept:
  assumes "text \<noteq> []" and "parseResponse parse text = Some raw"
    and "mapRawToLesson raw = Inr lesson"
    and "validateResponse raw lv = Inr True \<or> (validateResponse raw lv = Inr False \<and> k = 2)"
  shows "tryAttempt parse lv k (Response (Some text)) = Return lesson"
  using assms by (auto simp: tryAttempt_def returnMapped_def)

lemma tryAttempt_reject:
  assumes "text \<noteq> []" and "parseResponse parse text = Some raw"
    and "validateResponse raw lv = Inr False" and "k \<noteq> 2"
  shows "tryAttempt parse lv k (Response (Some text)) = Next"
  using assms by (simp add: tryAttempt_def)

lemma generateLesson_calls: "snd (generateLesson parse ai lv) \<le> 3"
  by (simp add: retryLoop_unroll split: tried.splits)

lemma returned_non_null:
  assumes "k < 3" and "tryAttempt parse lv k (ai k) = Return lesson"
  shows "fst (generateLesson parse ai lv) \<noteq> None"
proof -
  from assms(1) consider "k = 0" | "k = 1" | "k = 2" by linarith
  then show ?thesis
    using assms(2) by cases (simp_all add: retryLoop_unroll split: tried.splits)
qed

lemma cleanText_braces: "cleanText ''{}'' = ''{}''"
  by (simp add: cleanText_def trim_def isSpace_def startsWith_def)

lemma sampleParse_braces: "parseResponse sampleParse ''{}'' = Some (JObj [])"
  by (simp add: parseResponse_def cleanText_braces sampleParse_def)

lemma validate_empty_object: "validateResponse (JObj []) lv = Inr False"
  by (simp add: validateResponse_def bindE_def)

section \<open>When the client returns null\<close>

text \<open>
  Claim C1, as amended. \<^verbatim>\<open>generateLesson\<close> returns a lesson whenever the response of
  some attempt parses to a payload that passes validation, or the response of the third
  attempt parses to a payload at all; and it returns \<^verbatim>\<open>null\<close>, after three calls, when
  all three attempts raise.
\<close>

theorem generateLesson_null_only:
  "((\<exists>k<3. \<exists>text raw. ai k = Response (Some text) \<and> text \<noteq> [] \<and>
        parseResponse parse text = Some raw \<and> payloadShape raw \<and>
        (validateResponse raw lv = Inr True \<or> k = 2))
      \<longrightarrow> fst (generateLesson parse ai lv) \<noteq> None) \<and>
   ((\<forall>k<3. ai k = Throws) \<longrightarrow> generateLesson parse ai lv = (None, 3))"
proof (intro conjI impI)
  assume "\<exists>k<3. \<exists>text raw. ai k = Response (Some text) \<and> text \<noteq> [] \<and>
        parseResponse parse text = Some raw \<and> payloadShape raw \<and>
        (validateResponse raw lv = Inr True \<or> k = 2)"
  then obtain k s raw where k: "k < 3" and out: "ai k = Response (Some s)"
    and nonempty: "s \<noteq> []" and raw: "parseResponse parse s = Some raw"
    and shape: "payloadShape raw" and ok: "validateResponse raw lv = Inr True \<or> k = 2"
    by blast
  from payloadShape_mappable [OF shape] obtain lesson where
    lesson: "mapRawToLesson raw = Inr lesson" by blast
  from payloadShape_validated [OF shape, of lv] ok
  have "validateResponse raw lv = Inr True \<or> (validateResponse raw lv = Inr False \<and> k = 2)"
    by auto
  from tryAttempt_accept [OF nonempty raw lesson this] out
  have "tryAttempt parse lv k (ai k) = Return lesson" by simp
  from returned_non_null [of k parse lv ai lesson, OF k this]
  show "fst (generateLesson parse ai lv) \<noteq> None" .
next
  assume "\<forall>k<3. ai k = Throws"
  then have "ai 0 = Throws" "ai 1 = Throws" "ai 2 = Throws" by simp_all
  then show "generateLesson parse ai lv = (None, 3)"
    by (simp add: retryLoop_unroll tryAttempt_Throws)
qed

theorem generateLesson_null_only_witness:
  "fst (generateLesson sampleParse emptyObjects A1) \<noteq> None \<and>
   generateLesson sampleParse alwaysThrows A1 = (None, 3)"
proof -
  have "\<exists>k<3. \<exists>text raw. emptyObjects k = Response (Some text) \<and> text \<noteq> [] \<and>
        parseResponse sampleParse text = Some raw \<and> payloadShape raw \<and>
        (validateResponse raw A1 = Inr True \<or> k = 2)"
    by (rule exI [of _ 2])
       (simp add: emptyObjects_def sampleParse_braces optional_def)
  moreover have "\<forall>k<3. alwaysThrows k = Throws"
    by (simp add: alwaysThrows_def)
  ultimately show ?thesis
    using generateLesson_null_only [of emptyObjects sampleParse A1]
      generateLesson_null_only [of alwaysThrows sampleParse A1]
    by blast
qed

text \<open>
  The claim as first stated, that one parsed response is enough for a lesson, fails: the
  first response parses to \<^verbatim>\<open>{}\<close>, which the validator rejects, the two other calls
  raise, and the result is \<^verbatim>\<open>null\<close>.
\<close>

theorem generateLesson_null_counterexample:
  "parseResponse sampleParse ''{}'' = Some (JObj []) \<and>
   parsedThenErrors 0 = Response (Some ''{}'') \<and>
   generateLesson sampleParse parsedThenErrors A1 = (None, 3)"
  by (simp add: sampleParse_braces parsedThenErrors_def retryLoop_unroll tryAttempt_def
        validate_empty_object)


section \<open>Facts about the sample data\<close>

lemma cleanText_tx: \<open>cleanText ''{"t":"x"}'' = ''{"t":"x"}''\<close>
  by (simp add: cleanText_def trim_def isSpace_def startsWith_def)

lemma sampleParse_tx:
  \<open>parseResponse sampleParse ''{"t":"x"}'' = Some (JObj [(''t'', JStr ''x'')])\<close>
  by (simp add: parseResponse_def cleanText_tx sampleParse_def)

lemma validate_tx: "validateResponse (JObj [(''t'', JStr ''x'')]) lv = Inr False"
  by (simp add: validateResponse_def bindE_def)

lemma mapRawToLesson_minimal: "mapRawToLesson minimalPayload = Inr minimalLesson"
  by (simp add: mapRawToLesson_def minimalPayload_def minimalLesson_def halloCard_def
        bindE_def mapVoc_def)

lemma validate_minimal: "validateResponse minimalPayload lv = Inr True"
  by (simp add: validateResponse_def minimalPayload_def bindE_def)

lemma payloadShape_minimal: "payloadShape minimalPayload"
  by (simp add: minimalPayload_def halloCard_def optional_def isStr_def)

lemma cleanText_minimal: "cleanText minimalText = minimalText"
  by (simp add: cleanText_def trim_def isSpace_def startsWith_def minimalText_def)

lemma sampleParse_minimal: "parseResponse sampleParse minimalText = Some minimalPayload"
  by (simp add: parseResponse_def cleanText_minimal sampleParse_def) (simp add: minimalText_def)

lemma mapRawToLesson_raises: "mapRawToLesson (JObj [(''q'', JNum 5)]) = Inl TypeError"
  by (simp add: mapRawToLesson_def bindE_def)

text \<open>\<^verbatim>\<open>split\<close> returns at least one piece.\<close>

lemma splitWs_nonempty: "splitWs s \<noteq> []"
  by (induction s rule: splitWs.induct) (auto split: list.splits)

lemma validate_text_rejected:
  assumes "getProp raw ''txt'' = Inr (Some (JStr txt))" and "txt \<noteq> []"
    and "\<not> checkText txt lv"
  shows "validateResponse raw lv = Inr False"
  using assms by (simp add: validateResponse_def bindE_def)

lemma sixtyOne_words: "length (splitWs (repeatWord 61 ''a'')) = 61"
  by code_simp

lemma sixtyOne_A0: "validateResponse (readingPayload (repeatWord 61 ''a'')) A0 = Inr False"
  by code_simp

lemma sixtyOne_A1: "validateResponse (readingPayload (repeatWord 61 ''a'')) A1 = Inr True"
  by code_simp

lemma sixtyOne_A2: "validateResponse (readingPayload (repeatWord 61 ''a'')) A2 = Inr True"
  by code_simp

lemma sixtyOne_B1: "validateResponse (readingPayload (repeatWord 61 ''a'')) B1 = Inr True"
  by code_simp

section \<open>Degrading after three rejections\<close>

text \<open>
  Claim C2. When the responses of all three attempts parse and the validator rejects each
  of them, \<^verbatim>\<open>generateLesson\<close> returns, after three calls, what the mapper makes of the
  payload of the third attempt, and not \<^verbatim>\<open>null\<close>.
\<close>

theorem generateLesson_degrades:
  assumes rejected: "\<forall>k<3. \<exists>text raw. ai k = Response (Some text) \<and> text \<noteq> [] \<and>
              parseResponse parse text = Some raw \<and> validateResponse raw lv = Inr False"
    and last: "ai 2 = Response (Some text2)" "parseResponse parse text2 = Some raw2"
    and shape: "payloadShape raw2"
  shows "\<exists>lesson. mapRawToLesson raw2 = Inr lesson \<and>
           generateLesson parse ai lv = (Some lesson, 3)"
proof -
  from payloadShape_mappable [OF shape] obtain lesson where
    lesson: "mapRawToLesson raw2 = Inr lesson" by blast
  from rejected have "\<exists>text raw. ai 0 = Response (Some text) \<and> text \<noteq> [] \<and>
      parseResponse parse text = Some raw \<and> validateResponse raw lv = Inr False" by simp
  then have zero: "tryAttempt parse lv 0 (ai 0) = Next"
    by (auto simp: tryAttempt_reject)
  from rejected have "\<exists>text raw. ai 1 = Response (Some text) \<and> text \<noteq> [] \<and>
      parseResponse parse text = Some raw \<and> validateResponse raw lv = Inr False" by simp
  then have one: "tryAttempt parse lv (Suc 0) (ai (Suc 0)) = Next"
    by (auto simp: tryAttempt_reject)
  from rejected have "\<exists>text raw. ai 2 = Response (Some text) \<and> text \<noteq> [] \<and>
      parseResponse parse text = Some raw \<and> validateResponse raw lv = Inr False" by simp
  with last have "text2 \<noteq> []" "validateResponse raw2 lv = Inr False" by auto
  with last lesson have two: "tryAttempt parse lv 2 (ai 2) = Return lesson"
    by (simp add: tryAttempt_accept)
  show ?thesis
    by (simp add: lesson retryLoop_unroll zero one two)
qed

theorem generateLesson_degrades_witness:
  "\<exists>lesson. mapRawToLesson (JObj [(''t'', JStr ''x'')]) = Inr lesson \<and>
     topic lesson = JStr ''x'' \<and>
     generateLesson sampleParse threeRejections B1 = (Some lesson, 3)"
proof -
  have rejected: "\<forall>k<3. \<exists>text raw. threeRejections k = Response (Some text) \<and> text \<noteq> [] \<and>
      parseResponse sampleParse text = Some raw \<and> validateResponse raw B1 = Inr False"
    by (simp add: threeRejections_def sampleParse_braces sampleParse_tx
          validate_empty_object validate_tx)
  have last: \<open>threeRejections 2 = Response (Some ''{"t":"x"}'')\<close>
    by (simp add: threeRejections_def)
  have shape: "payloadShape (JObj [(''t'', JStr ''x'')])"
    by (simp add: optional_def isStr_def)
  from generateLesson_degrades [OF rejected last sampleParse_tx shape]
  obtain lesson where m: "mapRawToLesson (JObj [(''t'', JStr ''x'')]) = Inr lesson"
    and g: "generateLesson sampleParse threeRejections B1 = (Some lesson, 3)" by blast
  from m have "topic lesson = JStr ''x''"
    by (auto simp: mapRawToLesson_def bindE_def)
  with m g show ?thesis by blast
qed

section \<open>The retry budget\<close>

text \<open>
  Claim C3. \<^verbatim>\<open>generateLesson\<close> makes at least one and at most three model calls; when
  the first two calls raise and the response of the third parses to a payload that
  passes validation, it makes exactly three calls and returns that payload, mapped.
  When such a response comes at the second call, after one that raised, two calls are
  made, and when it comes at the first call, one.
\<close>

theorem generateLesson_retry_budget:
  "1 \<le> snd (generateLesson parse ai lv) \<and>
   snd (generateLesson parse ai lv) \<le> 3 \<and>
   (ai 0 = Throws \<and> ai 1 = Throws \<and> ai 2 = Response (Some text) \<and> text \<noteq> [] \<and>
    parseResponse parse text = Some raw \<and> payloadShape raw \<and>
    validateResponse raw lv = Inr True
    \<longrightarrow> (\<exists>lesson. mapRawToLesson raw = Inr lesson \<and>
           generateLesson parse ai lv = (Some lesson, 3))) \<and>
   (ai 0 = Throws \<and> ai 1 = Response (Some text) \<and> text \<noteq> [] \<and>
    parseResponse parse text = Some raw \<and> payloadShape raw \<and>
    validateResponse raw lv = Inr True
    \<longrightarrow> (\<exists>lesson. mapRawToLesson raw = Inr lesson \<and>
           generateLesson parse ai lv = (Some lesson, 2))) \<and>
   (ai 0 = Response (Some text) \<and> text \<noteq> [] \<and>
    parseResponse parse text = Some raw \<and> payloadShape raw \<and>
    validateResponse raw lv = Inr True
    \<longrightarrow> (\<exists>lesson. mapRawToLesson raw = Inr lesson \<and>
           generateLesson parse ai lv = (Some lesson, 1)))"
proof -
  have accept: "\<exists>lesson. mapRawToLesson raw = Inr lesson \<and>
      tryAttempt parse lv k (Response (Some text)) = Return lesson"
    if "text \<noteq> []" "parseResponse parse text = Some raw" "payloadShape raw"
      "validateResponse raw lv = Inr True" for k
  proof -
    from payloadShape_mappable [OF that(3)] obtain lesson where
      lesson: "mapRawToLesson raw = Inr lesson" by blast
    with that show ?thesis by (simp add: tryAttempt_accept)
  qed
  have third: "\<exists>lesson. mapRawToLesson raw = Inr lesson \<and>
           generateLesson parse ai lv = (Some lesson, 3)"
    if a: "ai 0 = Throws \<and> ai 1 = Throws \<and> ai 2 = Response (Some text) \<and> text \<noteq> [] \<and>
      parseResponse parse text = Some raw \<and> payloadShape raw \<and>
      validateResponse raw lv = Inr True"
  proof -
    from a accept [of 2] obtain lesson where "mapRawToLesson raw = Inr lesson"
      and "tryAttempt parse lv 2 (ai 2) = Return lesson" by auto
    with a show ?thesis by (simp add: retryLoop_unroll tryAttempt_Throws)
  qed
  have second: "\<exists>lesson. mapRawToLesson raw = Inr lesson \<and>
           generateLesson parse ai lv = (Some lesson, 2)"
    if a: "ai 0 = Throws \<and> ai 1 = Response (Some text) \<and> text \<noteq> [] \<and>
      parseResponse parse text = Some raw \<and> payloadShape raw \<and>
      validateResponse raw lv = Inr True"
  proof -
    from a accept [of "Suc 0"] obtain lesson where "mapRawToLesson raw = Inr lesson"
      and "tryAttempt parse lv (Suc 0) (ai (Suc 0)) = Return lesson" by auto
    with a show ?thesis by (simp add: retryLoop_unroll tryAttempt_Throws)
  qed
  have first: "\<exists>lesson. mapRawToLesson raw = Inr lesson \<and>
           generateLesson parse ai lv = (Some lesson, 1)"
    if a: "ai 0 = Response (Some text) \<and> text \<noteq> [] \<and>
      parseResponse parse text = Some raw \<and> payloadShape raw \<and>
      validateResponse raw lv = Inr True"
  proof -
    from a accept [of 0] obtain lesson where "mapRawToLesson raw = Inr lesson"
      and "tryAttempt parse lv 0 (ai 0) = Return lesson" by auto
    then show ?thesis by (simp add: retryLoop_unroll)
  qed
  from third second first show ?thesis
    using generateLesson_called [of parse ai lv] generateLesson_calls [of parse ai lv]
    by blast
qed

theorem generateLesson_retry_budget_witness:
  "generateLesson sampleParse errorsThenSuccess A1 = (Some minimalLesson, 3) \<and>
   generateLesson sampleParse errorThenSuccess A1 = (Some minimalLesson, 2) \<and>
   generateLesson sampleParse successAtOnce A1 = (Some minimalLesson, 1)"
proof -
  have payload: "minimalText \<noteq> [] \<and>
    parseResponse sampleParse minimalText = Some minimalPayload \<and>
    payloadShape minimalPayload \<and> validateResponse minimalPayload A1 = Inr True"
    by (simp add: sampleParse_minimal payloadShape_minimal validate_minimal)
       (simp add: minimalText_def)
  have three: "errorsThenSuccess 0 = Throws \<and> errorsThenSuccess 1 = Throws \<and>
    errorsThenSuccess 2 = Response (Some minimalText)"
    by (simp add: errorsThenSuccess_def)
  have two: "errorThenSuccess 0 = Throws \<and> errorThenSuccess 1 = Response (Some minimalText)"
    by (simp add: errorThenSuccess_def)
  have one: "successAtOnce 0 = Response (Some minimalText)"
    by (simp add: successAtOnce_def)
  from payload three two one
    generateLesson_retry_budget
      [of sampleParse errorsThenSuccess A1 minimalText minimalPayload]
    generateLesson_retry_budget
      [of sampleParse errorThenSuccess A1 minimalText minimalPayload]
    generateLesson_retry_budget
      [of sampleParse successAtOnce A1 minimalText minimalPayload]
  show ?thesis by (simp add: mapRawToLesson_minimal)
qed

section \<open>The mapper on payloads\<close>

text \<open>
  Claim C4, as amended. \<^verbatim>\<open>mapRawToLesson\<close> raises no exception on a payload; on the
  minimal payload it gives the topic \<^verbatim>\<open>Greetings\<close>, the level \<^verbatim>\<open>A1\<close>, one vocabulary card
  with the four fields renamed, the empty list of reading questions, and every other
  optional field undefined.
\<close>

theorem mapRawToLesson_total:
  "(payloadShape raw \<longrightarrow> (\<exists>lesson. mapRawToLesson raw = Inr lesson)) \<and>
   mapRawToLesson minimalPayload = Inr minimalLesson \<and>
   topic minimalLesson = JStr ''Greetings'' \<and>
   level minimalLesson = JStr ''A1'' \<and>
   vocabulary minimalLesson =
     [\<lparr> german = Some (JStr ''Hallo''), englishExplanation = Some (JStr ''Hello''),
        hindiTranslation = Some (JStr ''Namaste''),
        exampleSentence = Some (JStr ''Hallo!'') \<rparr>] \<and>
   readingQuestions minimalLesson = Some [] \<and>
   readingText minimalLesson = None \<and>
   readingTextTranslation minimalLesson = None \<and>
   writingPrompt minimalLesson = None \<and>
   writingPoints minimalLesson = None \<and>
   listeningScenario minimalLesson = None \<and>
   listeningQuestions minimalLesson = None"
  by (simp add: payloadShape_mappable mapRawToLesson_minimal) (simp add: minimalLesson_def)

theorem mapRawToLesson_total_witness:
  "payloadShape minimalPayload \<and> (\<exists>lesson. mapRawToLesson minimalPayload = Inr lesson)"
  using mapRawToLesson_total [of minimalPayload] payloadShape_minimal by blast

text \<open>
  The claim as first stated, that \<^verbatim>\<open>readingQuestions\<close> is undefined for the minimal
  payload, fails: \<^verbatim>\<open>(raw.q || []).map(...)\<close> makes it the empty list.
\<close>

theorem mapRawToLesson_questions_counterexample:
  "mapRawToLesson minimalPayload = Inr minimalLesson \<and>
   readingQuestions minimalLesson \<noteq> None"
  by (simp add: mapRawToLesson_minimal) (simp add: minimalLesson_def)

section \<open>Payloads without vocabulary\<close>

text \<open>
  Claim C6. At every level the validator returns false for a payload whose \<^verbatim>\<open>voc\<close> is
  absent or the empty list, whatever its other fields are; of the reading text it is
  only asked that it is a string when there is one.
\<close>

theorem validateResponse_no_vocabulary:
  assumes reading: "getProp raw ''txt'' = Inr None \<or>
                    (\<exists>txt. getProp raw ''txt'' = Inr (Some (JStr txt)))"
    and voc: "getProp raw ''voc'' = Inr None \<or> getProp raw ''voc'' = Inr (Some (JArr []))"
  shows "validateResponse raw lv = Inr False"
proof -
  from reading obtain tx where tx: "getProp raw ''txt'' = Inr tx"
    and str: "tx = None \<or> (\<exists>txt. tx = Some (JStr txt))" by auto
  from str have t: "\<exists>ok. (if truthy tx then checkTxt tx lv else Inr True) = Inr ok"
    by auto
  from voc obtain v where v: "getProp raw ''voc'' = Inr v"
    and empty: "v = None \<or> v = Some (JArr [])" by auto
  from t empty show ?thesis
    by (auto simp: validateResponse_def bindE_def tx v)
qed

theorem validateResponse_no_vocabulary_witness:
  "validateResponse (JObj [(''t'', JStr ''Greetings''), (''txt'', JStr ''Hallo Welt'')]) A1
     = Inr False \<and>
   validateResponse (JObj [(''q'', JNum 5), (''voc'', JArr [])]) A0 = Inr False"
  using validateResponse_no_vocabulary
          [of "JObj [(''t'', JStr ''Greetings''), (''txt'', JStr ''Hallo Welt'')]" A1]
        validateResponse_no_vocabulary [of "JObj [(''q'', JNum 5), (''voc'', JArr [])]" A0]
  by simp

section \<open>The word-count ceiling\<close>

text \<open>
  Claim C7. The ceiling of level A0 is below the ceiling of every other level; the
  validator returns false when the reading text splits into more words than the ceiling
  of the level; and a text of 61 words is rejected at A0 and accepted at A1, A2 and B1.
\<close>

theorem validateResponse_word_ceiling:
  "(lv \<noteq> A0 \<longrightarrow> maxWords A0 < maxWords lv) \<and>
   (getProp raw ''txt'' = Inr (Some (JStr txt)) \<and> maxWords lv < length (splitWs txt)
      \<longrightarrow> validateResponse raw lv = Inr False) \<and>
   length (splitWs (repeatWord 61 ''a'')) = 61 \<and>
   validateResponse (readingPayload (repeatWord 61 ''a'')) A0 = Inr False \<and>
   validateResponse (readingPayload (repeatWord 61 ''a'')) A1 = Inr True \<and>
   validateResponse (readingPayload (repeatWord 61 ''a'')) A2 = Inr True \<and>
   validateResponse (readingPayload (repeatWord 61 ''a'')) B1 = Inr True"
proof -
  have ceiling: "lv \<noteq> A0 \<longrightarrow> maxWords A0 < maxWords lv"
    by (simp add: maxWords_def)
  have long: "validateResponse raw lv = Inr False"
    if tx: "getProp raw ''txt'' = Inr (Some (JStr txt))"
      and n: "maxWords lv < length (splitWs txt)"
  proof -
    from n have "txt \<noteq> []" by (auto simp: maxWords_def split: if_splits)
    moreover from n have "\<not> checkText txt lv" by (simp add: checkText_def)
    ultimately show ?thesis using tx by (rule_tac validate_text_rejected)
  qed
  from ceiling long show ?thesis
    by (simp add: sixtyOne_words sixtyOne_A0 sixtyOne_A1 sixtyOne_A2 sixtyOne_B1)
qed

theorem validateResponse_word_ceiling_witness:
  "maxWords A0 < maxWords B1 \<and>
   validateResponse (readingPayload (repeatWord 61 ''a'')) A0 = Inr False"
proof -
  have "getProp (readingPayload (repeatWord 61 ''a'')) ''txt''
          = Inr (Some (JStr (repeatWord 61 ''a'')))"
    by (simp add: readingPayload_def)
  moreover have "maxWords A0 < length (splitWs (repeatWord 61 ''a''))"
    by (simp add: sixtyOne_words maxWords_def)
  ultimately show ?thesis
    using validateResponse_word_ceiling [of B1 "readingPayload (repeatWord 61 ''a'')"
            "repeatWord 61 ''a''"]
      validateResponse_word_ceiling [of A0 "readingPayload (repeatWord 61 ''a'')"
            "repeatWord 61 ''a''"]
    by simp
qed

section \<open>Writing feedback never raises\<close>

text \<open>
  Claim C9. \<^verbatim>\<open>evaluateWriting\<close> returns a string for every outcome of its model call:
  the text of the response when there is one, a fixed message when the call raises, and a
  fixed message when the response has no text.
\<close>

theorem evaluateWriting_total:
  "(text \<noteq> [] \<longrightarrow> evaluateWriting (Response (Some text)) = text) \<and>
   evaluateWriting Throws = ''Error generating feedback. Please try again.'' \<and>
   evaluateWriting (Response (Some [])) = ''Could not generate feedback.'' \<and>
   evaluateWriting (Response None) = ''Could not generate feedback.''"
  by (simp add: evaluateWriting_def)

theorem evaluateWriting_total_witness:
  "evaluateWriting (Response (Some ''Gut gemacht!'')) = ''Gut gemacht!''"
  using evaluateWriting_total [of "''Gut gemacht!''"] by simp

section \<open>A lesson without vocabulary\<close>

text \<open>
  Claim C10. A lesson returned by \<^verbatim>\<open>generateLesson\<close> can have no vocabulary: when each
  of the three responses is \<^verbatim>\<open>{}\<close>, which parses, has no \<^verbatim>\<open>voc\<close> and is rejected by the
  validator, the result is a lesson whose vocabulary is the empty list.
\<close>

theorem generateLesson_empty_vocabulary:
  assumes "parse ''{}'' = Some (JObj [])"
  shows "(\<forall>k<3. emptyObjects k = Response (Some ''{}'')) \<and>
         parseResponse parse ''{}'' = Some (JObj []) \<and>
         validateResponse (JObj []) lv = Inr False \<and>
         getProp (JObj []) ''voc'' = Inr None \<and>
         (\<exists>lesson. generateLesson parse emptyObjects lv = (Some lesson, 3) \<and>
                    vocabulary lesson = [])"
proof -
  have p: "parseResponse parse ''{}'' = Some (JObj [])"
    using assms by (simp add: parseResponse_def cleanText_braces)
  have m: "mapRawToLesson (JObj []) =
      Inr \<lparr> topic = JStr ''Lesson'', level = JStr ''A1'', vocabulary = [],
            readingText = None, readingTextTranslation = None,
            readingQuestions = Some [], writingPrompt = None, writingPoints = None,
            listeningScenario = None, listeningQuestions = None \<rparr>"
    by (simp add: mapRawToLesson_def bindE_def)
  have n: "tryAttempt parse lv k (emptyObjects k) = (if k = 2 then returnMapped (JObj []) else Next)" for k
    by (simp add: tryAttempt_def emptyObjects_def p validate_empty_object)
  have "\<exists>lesson. generateLesson parse emptyObjects lv = (Some lesson, 3) \<and>
                    vocabulary lesson = []"
    by (simp add: retryLoop_unroll n returnMapped_def m)
  then show ?thesis
    by (simp add: p validate_empty_object emptyObjects_def)
qed

theorem generateLesson_empty_vocabulary_witness:
  "\<exists>lesson. generateLesson sampleParse emptyObjects A2 = (Some lesson, 3) \<and>
             vocabulary lesson = []"
proof -
  have "sampleParse ''{}'' = Some (JObj [])" by (simp add: sampleParse_def)
  with generateLesson_empty_vocabulary [of sampleParse A2] show ?thesis by blast
qed


section \<open>Repeated words\<close>

text \<open>
  What the loop over the words decides: it runs to its end exactly when no word of more
  than three characters, other than the names inherited from \<^verbatim>\<open>Object.prototype\<close>,
  comes to more than eight occurrences, those counted before included.
\<close>

lemma repetitionLoop_iff:
  "repetitionLoop m ws \<longleftrightarrow>
     (\<forall>w\<in>set ws. 3 < length w \<and> \<not> inheritedName w \<longrightarrow>
        (case m w of None \<Rightarrow> 0 | Some k \<Rightarrow> k) + count_list ws w \<le> 8)"
proof (induction ws arbitrary: m)
  case Nil
  show ?case by simp
next
  case (Cons word rest)
  show ?case
  proof (cases "3 < length word \<and> \<not> inheritedName word")
    case False
    then show ?thesis using Cons.IH [of m] by auto
  next
    case True
    define n where "n = (case m word of None \<Rightarrow> 0 | Some k \<Rightarrow> k) + 1"
    show ?thesis
    proof (cases "8 < n")
      case True
      with \<open>3 < length word \<and> \<not> inheritedName word\<close> show ?thesis
        by (auto simp: n_def Let_def)
    next
      case False
      have step: "repetitionLoop m (word # rest) = repetitionLoop (m(word \<mapsto> n)) rest"
        using True False by (simp add: n_def Let_def)
      have "(\<forall>w\<in>set rest. 3 < length w \<and> \<not> inheritedName w \<longrightarrow>
               (case (m(word \<mapsto> n)) w of None \<Rightarrow> 0 | Some k \<Rightarrow> k) + count_list rest w \<le> 8)
            \<longleftrightarrow>
            (\<forall>w\<in>set (word # rest). 3 < length w \<and> \<not> inheritedName w \<longrightarrow>
               (case m w of None \<Rightarrow> 0 | Some k \<Rightarrow> k) + count_list (word # rest) w \<le> 8)"
        (is "?L \<longleftrightarrow> ?R")
      proof
        assume l: ?L
        show ?R
        proof (intro ballI impI)
          fix w assume w: "w \<in> set (word # rest)" "3 < length w \<and> \<not> inheritedName w"
          show "(case m w of None \<Rightarrow> 0 | Some k \<Rightarrow> k) + count_list (word # rest) w \<le> 8"
          proof (cases "w = word")
            case True
            show ?thesis
            proof (cases "word \<in> set rest")
              case True
              with l w \<open>w = word\<close> show ?thesis by (auto simp: n_def)
            next
              case False
              then have "count_list rest word = 0" by (simp add: count_list_0_iff)
              with \<open>w = word\<close> \<open>\<not> 8 < n\<close> show ?thesis by (simp add: n_def)
            qed
          next
            case False
            with w have "w \<in> set rest" by simp
            with l w False show ?thesis by auto
          qed
        qed
      next
        assume r: ?R
        show ?L
        proof (intro ballI impI)
          fix w assume w: "w \<in> set rest" "3 < length w \<and> \<not> inheritedName w"
          with r have "(case m w of None \<Rightarrow> 0 | Some k \<Rightarrow> k) + count_list (word # rest) w \<le> 8"
            by simp
          then show "(case (m(word \<mapsto> n)) w of None \<Rightarrow> 0 | Some k \<Rightarrow> k) + count_list rest w \<le> 8"
            by (cases "w = word") (auto simp: n_def)
        qed
      qed
      with step Cons.IH [of "m(word \<mapsto> n)"] show ?thesis by simp
    qed
  qed
qed

lemma validateResponse_repetition:
  assumes tx: "getProp raw ''txt'' = Inr (Some (JStr txt))"
    and w: "3 < length w" "\<not> inheritedName w"
    and many: "9 \<le> count_list (splitWs (toLowerCase txt)) w"
  shows "validateResponse raw lv = Inr False"
proof -
  from many w have "txt \<noteq> []" by (auto simp: toLowerCase_def split: if_splits)
  moreover have "\<not> checkText txt lv"
  proof -
    from many have "w \<in> set (splitWs (toLowerCase txt))"
      by (metis count_list_0_iff not_numeral_le_zero)
    with w many have "\<not> repetitionLoop Map.empty (splitWs (toLowerCase txt))"
      by (auto simp: repetitionLoop_iff)
    then show ?thesis by (simp add: checkText_def Let_def)
  qed
  ultimately show ?thesis using tx by (rule_tac validate_text_rejected)
qed

lemma validateResponse_boundary:
  assumes tx: "getProp raw ''txt'' = Inr (Some (JStr txt))"
    and voc: "getProp raw ''voc'' = Inr (Some (JArr (v # vs)))"
    and short: "length (splitWs txt) \<le> maxWords lv"
    and few: "\<forall>w. 3 < length w \<longrightarrow> count_list (splitWs (toLowerCase txt)) w \<le> 8"
  shows "validateResponse raw lv = Inr True"
proof -
  from few have "repetitionLoop Map.empty (splitWs (toLowerCase txt))"
    by (simp add: repetitionLoop_iff)
  with short have "checkText txt lv" by (simp add: checkText_def Let_def)
  with tx voc show ?thesis
    by (simp add: validateResponse_def bindE_def)
qed

text \<open>The boundary on an ordinary word: nine times \<^verbatim>\<open>Hallo\<close> is rejected, eight times is
  accepted, at every level.\<close>

lemma nine_hallos_rejected:
  "validateResponse (readingPayload (repeatWord 9 ''Hallo'')) lv = Inr False"
  by (cases lv; hypsubst; code_simp)

lemma eight_hallos_accepted:
  "validateResponse (readingPayload (repeatWord 8 ''Hallo'')) lv = Inr True"
  by (cases lv; hypsubst; code_simp)

lemma nine_constructors:
  "count_list (splitWs (toLowerCase (repeatWord 9 ''constructor''))) ''constructor'' = 9"
  by code_simp

text \<open>
  Claim C5, on the input where the code departs from it. The reading text is nine times
  the word \<^verbatim>\<open>constructor\<close>, a word of eleven characters; the payload has a vocabulary
  card. \<^verbatim>\<open>wordFreq["constructor"]\<close> is the inherited function \<^verbatim>\<open>Object\<close>, to which
  \<^verbatim>\<open>+ 1\<close> appends the character 1, and the comparison with 8 is false each time: the
  validator accepts the payload at every level.
\<close>

theorem validateResponse_constructor:
  "3 < length ''constructor'' \<and>
   count_list (splitWs (toLowerCase (repeatWord 9 ''constructor''))) ''constructor'' = 9 \<and>
   validateResponse (readingPayload (repeatWord 9 ''constructor'')) lv = Inr True"
proof -
  have "validateResponse (readingPayload (repeatWord 9 ''constructor'')) lv = Inr True"
    by (cases lv; hypsubst; code_simp)
  then show ?thesis by (simp add: nine_constructors)
qed

section \<open>Stripping the code fence\<close>

lemma backtick_no_space: "\<not> isSpace (CHR 0x60)"
  by (simp add: isSpace_def)

lemma jsonStart_facts:
  assumes "jsonStart c"
  shows "\<not> isSpace c" and "c \<noteq> CHR 0x60" and "c \<noteq> CHR ''j''"
  using assms by (auto simp: jsonStart_def isSpace_def)

lemma space_not_j: "isSpace c \<Longrightarrow> c \<noteq> CHR ''j''"
  by (auto simp: isSpace_def)

lemma startsJson_split:
  assumes "startsJson doc"
  obtains c cs where "dropWhile isSpace doc = c # cs" and "jsonStart c"
  using assms by (auto simp: startsJson_def split: list.splits)

lemma trim_head:
  assumes "dropWhile isSpace doc = c # cs" and "\<not> isSpace c"
  shows "\<exists>r. trim doc = c # r"
proof -
  have "dropWhile isSpace (rev cs @ [c]) = dropWhile isSpace (rev cs) @ [c]"
    using assms(2) by (simp add: dropWhile_append3)
  then show ?thesis using assms(1) by (simp add: trim_def)
qed

lemma cleanText_bare:
  assumes "startsJson doc"
  shows "cleanText doc = trim doc"
proof -
  from assms obtain c cs where d: "dropWhile isSpace doc = c # cs" and c: "jsonStart c"
    by (rule startsJson_split)
  from trim_head [OF d jsonStart_facts(1) [OF c]] obtain r where "trim doc = c # r" by blast
  with jsonStart_facts(2) [OF c] show ?thesis
    by (simp add: cleanText_def startsWith_def)
qed

lemma dropWhile_spaces_doc:
  assumes "\<forall>c\<in>set ws1. isSpace c" and "dropWhile isSpace doc = c # cs"
  shows "dropWhile isSpace (ws1 @ doc @ rest) = dropWhile isSpace doc @ rest"
proof -
  from assms(2) have "\<exists>x\<in>set doc. \<not> isSpace x"
    by (metis dropWhile_eq_Nil_conv list.distinct(1))
  then have "dropWhile isSpace (doc @ rest) = dropWhile isSpace doc @ rest"
    by (auto simp: dropWhile_append1)
  with assms(1) show ?thesis by (simp add: dropWhile_append2)
qed

lemma stripClose_fence:
  assumes "\<forall>c\<in>set ws2. isSpace c"
  shows "stripClose (body @ ws2 @ ''```'') = rev (dropWhile isSpace (rev body))"
proof -
  have "dropWhile isSpace (rev ws2 @ rev body) = dropWhile isSpace (rev body)"
    by (rule dropWhile_append2) (use assms in auto)
  then show ?thesis by (simp add: stripClose_def endsWith_def)
qed

lemma trim_fenced: "trim (''```'' @ mid @ ''```'') = ''```'' @ mid @ ''```''"
  by (simp add: trim_def backtick_no_space)

lemma fenced_head:
  assumes "\<forall>c\<in>set ws1. isSpace c" and "dropWhile isSpace doc = c # cs" and "jsonStart c"
  shows "\<exists>x xs. ws1 @ doc @ rest = x # xs \<and> x \<noteq> CHR ''j''"
proof (cases ws1)
  case (Cons x xs)
  with assms(1) show ?thesis by (simp add: space_not_j)
next
  case Nil
  from assms(2) obtain y ys where doc: "doc = y # ys" by (cases doc) simp_all
  show ?thesis
  proof (cases "isSpace y")
    case True
    with doc Nil show ?thesis by (simp add: space_not_j)
  next
    case False
    with doc assms(2) have "y = c" by simp
    with doc Nil jsonStart_facts(3) [OF assms(3)] show ?thesis by simp
  qed
qed

lemma cleanText_fenced:
  assumes ws1: "\<forall>c\<in>set ws1. isSpace c" and ws2: "\<forall>c\<in>set ws2. isSpace c"
    and doc: "startsJson doc" and tag: "tag = ''json'' \<or> tag = []"
  shows "cleanText (''```'' @ tag @ ws1 @ doc @ ws2 @ ''```'') = trim doc"
proof -
  from doc obtain c cs where d: "dropWhile isSpace doc = c # cs" and c: "jsonStart c"
    by (rule startsJson_split)
  have body: "dropWhile isSpace (ws1 @ doc @ ws2 @ ''```'')
                = dropWhile isSpace doc @ ws2 @ ''```''"
    by (rule dropWhile_spaces_doc [OF ws1 d])
  have close: "stripClose (dropWhile isSpace doc @ ws2 @ ''```'') = trim doc"
    using stripClose_fence [OF ws2, of "dropWhile isSpace doc"] by (simp add: trim_def)
  from tag show ?thesis
  proof
    assume "tag = ''json''"
    then have whole: "''```'' @ tag @ ws1 @ doc @ ws2 @ ''```''
        = ''```json'' @ ws1 @ doc @ ws2 @ ''```''" by simp
    have t: "trim (''```json'' @ ws1 @ doc @ ws2 @ ''```'')
               = ''```json'' @ ws1 @ doc @ ws2 @ ''```''"
      using trim_fenced [of "''json'' @ ws1 @ doc @ ws2"] by simp
    show ?thesis
      unfolding whole cleanText_def t Let_def
      by (simp add: startsWith_def stripOpen_def body close)
  next
    assume "tag = []"
    then have whole: "''```'' @ tag @ ws1 @ doc @ ws2 @ ''```''
        = ''```'' @ ws1 @ doc @ ws2 @ ''```''" by simp
    have t: "trim (''```'' @ ws1 @ doc @ ws2 @ ''```'')
               = ''```'' @ ws1 @ doc @ ws2 @ ''```''"
      using trim_fenced [of "ws1 @ doc @ ws2"] by simp
    from fenced_head [OF ws1 d c, of "ws2 @ ''```''"] obtain x xs where
      h: "ws1 @ doc @ ws2 @ ''```'' = x # xs" and x: "x \<noteq> CHR ''j''" by blast
    have nojson: "\<not> startsWith (''```'' @ ws1 @ doc @ ws2 @ ''```'') ''```json''"
      using x by (simp add: startsWith_def h)
    have plain: "startsWith (''```'' @ ws1 @ doc @ ws2 @ ''```'') ''```''"
      by (simp add: startsWith_def)
    have open': "stripOpen ''```'' (''```'' @ ws1 @ doc @ ws2 @ ''```'')
        = dropWhile isSpace doc @ ws2 @ ''```''"
      by (simp add: stripOpen_def startsWith_def body)
    show ?thesis
      unfolding whole cleanText_def t Let_def
      by (simp only: nojson plain open' close if_True if_False)
  qed
qed

text \<open>
  Claim C8. A response that wraps a JSON document in a code fence, opened by three
  backticks with or without the tag \<^verbatim>\<open>json\<close> and set off by any white space, parses to
  what the bare document parses to, for every parser; so it is for the document
  \<^verbatim>\<open>{"t":"x"}\<close> between a \<^verbatim>\<open>json\<close> fence and line feeds.
\<close>

theorem parseResponse_fenced:
  \<open>((\<forall>c\<in>set ws1. isSpace c) \<and> (\<forall>c\<in>set ws2. isSpace c) \<and> startsJson doc \<and>
    (tag = ''json'' \<or> tag = [])
      \<longrightarrow> parseResponse parse (''```'' @ tag @ ws1 @ doc @ ws2 @ ''```'')
            = parseResponse parse doc) \<and>
   parseResponse parse (''```json'' @ ''\<newline>'' @ ''{"t":"x"}'' @ ''\<newline>'' @ ''```'')
     = parseResponse parse ''{"t":"x"}''\<close>
proof (intro conjI impI)
  assume "(\<forall>c\<in>set ws1. isSpace c) \<and> (\<forall>c\<in>set ws2. isSpace c) \<and> startsJson doc \<and>
    (tag = ''json'' \<or> tag = [])"
  then have ws1: "\<forall>c\<in>set ws1. isSpace c" and ws2: "\<forall>c\<in>set ws2. isSpace c"
    and doc: "startsJson doc" and tag: "tag = ''json'' \<or> tag = []" by simp_all
  from cleanText_fenced [OF ws1 ws2 doc tag] cleanText_bare [OF doc]
  show "parseResponse parse (''```'' @ tag @ ws1 @ doc @ ws2 @ ''```'')
            = parseResponse parse doc"
    by (simp add: parseResponse_def)
next
  have nl: "\<forall>c\<in>set ''\<newline>''. isSpace c" by (simp add: isSpace_def)
  have doc: \<open>startsJson ''{"t":"x"}''\<close>
    by (simp add: startsJson_def isSpace_def jsonStart_def)
  from cleanText_fenced [OF nl nl doc, of "''json''"] cleanText_bare [OF doc]
  show \<open>parseResponse parse (''```json'' @ ''\<newline>'' @ ''{"t":"x"}'' @ ''\<newline>'' @ ''```'')
     = parseResponse parse ''{"t":"x"}''\<close>
    by (simp add: parseResponse_def)
qed

theorem parseResponse_fenced_witness:
  "parseResponse sampleParse (''```'' @ ''\<newline>'' @ ''{}'' @ '' '' @ ''\<newline>'' @ ''```'')
     = Some (JObj [])"
proof -
  have "(\<forall>c\<in>set ''\<newline>''. isSpace c) \<and> (\<forall>c\<in>set ('' '' @ ''\<newline>''). isSpace c) \<and>
        startsJson ''{}'' \<and> ([] = ''json'' \<or> ([] :: string) = [])"
    by (simp add: isSpace_def startsJson_def jsonStart_def)
  with parseResponse_fenced [of "''\<newline>''" "'' '' @ ''\<newline>''" "''{}''" "[]" sampleParse]
  show ?thesis by (simp add: sampleParse_braces)
qed


end
